theory Spec2Isabelle
  imports Main "HOL-Library.Multiset" "HOL-Library.Sublist"
begin

section \<open>Data model (src/src/App.tsx, lines 7-38)\<close>

text \<open>
  The three interfaces of the source. Field names are the source's, except where two
  records would share a name or a name is taken in HOL: \<open>Job.id\<close> is \<open>job_id\<close>,
  \<open>Job.type\<close> is \<open>job_type\<close>, \<open>SearchCriteria.id\<close> is \<open>crit_id\<close>, and the
  \<open>title\<close> and \<open>imageUrl\<close> of a profile carry the prefix \<open>profile_\<close>. A JavaScript
  number that only ever holds an integer is an \<open>int\<close>.
\<close>

record Job =
  job_id :: int
  title :: string
  company :: string
  location :: string
  job_type :: string
  salary :: string
  description :: string
  requirements :: "string list"
  imageUrl :: string
  postedDate :: string

record JobPreferences =
  minSalary :: int
  maxDistance :: int
  remoteOnly :: bool

record Profile =
  name :: string
  profile_title :: string
  skills :: "string list"
  experience :: string
  preferredLocations :: "string list"
  profile_imageUrl :: string
  jobPreferences :: JobPreferences

record SearchCriteria =
  crit_id :: string
  label :: string
  active :: bool

subsection \<open>The constants of the source (lines 40-130)\<close>

definition DUMMY_JOBS :: "Job list" where
  "DUMMY_JOBS =
   [\<lparr>job_id = 1,
     title = ''Senior Frontend Developer'',
     company = ''TechCorp Inc.'',
     location = ''San Francisco, CA'',
     job_type = ''Permanent'',
     salary = ''$120,000 - $180,000'',
     description = ''Looking for an experienced frontend developer with React expertise to join our dynamic team.'',
     requirements = [''5+ years of React experience'', ''Strong TypeScript skills'',
       ''Experience with modern CSS frameworks'', ''Understanding of web performance optimization''],
     imageUrl = ''https://images.unsplash.com/photo-1497366216548-37526070297c?auto=format&fit=crop&w=800'',
     postedDate = ''2024-03-10''\<rparr>,
    \<lparr>job_id = 2,
     title = ''UX Design Intern'',
     company = ''Design Studio'',
     location = ''Remote'',
     job_type = ''Internship'',
     salary = ''$30/hour'',
     description = ''Join our creative team to design beautiful and intuitive user experiences.'',
     requirements = [''Currently pursuing design degree'', ''Proficiency in Figma'',
       ''Strong portfolio'', ''Passion for user research''],
     imageUrl = ''https://images.unsplash.com/photo-1454165804606-c3d57bc86b40?auto=format&fit=crop&w=800'',
     postedDate = ''2024-03-12''\<rparr>,
    \<lparr>job_id = 3,
     title = ''Product Manager'',
     company = ''StartupX'',
     location = ''New York, NY'',
     job_type = ''Fixed-term'',
     salary = ''$130,000 - $160,000'',
     description = ''Lead product development and strategy for our growing startup.'',
     requirements = [''5+ years of product management'', ''Experience in B2B SaaS'',
       ''Strong analytical skills'', ''Excellent communication''],
     imageUrl = ''https://images.unsplash.com/photo-1552581234-26160f608093?auto=format&fit=crop&w=800'',
     postedDate = ''2024-03-15''\<rparr>,
    \<lparr>job_id = 4,
     title = ''DevOps Engineer'',
     company = ''CloudTech Solutions'',
     location = ''Remote'',
     job_type = ''Permanent'',
     salary = ''$140,000 - $190,000'',
     description = ''Join our infrastructure team to build and maintain scalable cloud solutions.'',
     requirements = [''Strong AWS experience'', ''Kubernetes expertise'',
       ''CI/CD pipeline management'', ''Infrastructure as Code''],
     imageUrl = ''https://images.unsplash.com/photo-1551434678-e076c223a692?auto=format&fit=crop&w=800'',
     postedDate = ''2024-03-16''\<rparr>]"

definition INITIAL_PROFILE :: Profile where
  "INITIAL_PROFILE =
   \<lparr>name = ''Alex Thompson'',
    profile_title = ''Senior Software Engineer'',
    skills = [''React'', ''TypeScript'', ''Node.js'', ''AWS''],
    experience = ''8 years'',
    preferredLocations = [''San Francisco'', ''Remote''],
    profile_imageUrl = ''https://images.unsplash.com/photo-1472099645785-5658abf4ff4e?auto=format&fit=crop&w=800'',
    jobPreferences = \<lparr>minSalary = 120000, maxDistance = 50, remoteOnly = False\<rparr>\<rparr>"

definition INITIAL_CRITERIA :: "SearchCriteria list" where
  "INITIAL_CRITERIA =
   [\<lparr>crit_id = ''permanent'', label = ''Permanent'', active = True\<rparr>,
    \<lparr>crit_id = ''fixed-term'', label = ''Fixed-term'', active = True\<rparr>,
    \<lparr>crit_id = ''temporary'', label = ''Temporary'', active = True\<rparr>,
    \<lparr>crit_id = ''internship'', label = ''Internship'', active = True\<rparr>]"

section \<open>The JavaScript primitives the handlers call\<close>

subsection \<open>Strings\<close>

text \<open>
  A string is a list of code units, and a \<open>char\<close> is a code unit below 256: the strings
  of the model are the JavaScript strings over U+0000 to U+00FF, which holds every
  string of the source. On these, \<open>String.prototype.toLowerCase\<close> moves the capital
  letters \<open>A\<close> to \<open>Z\<close> (65 to 90) and the capital letters of Latin-1 (192 to 214 and 216
  to 222) 32 places up, to their small letters, and leaves every other code unit as it
  is. \<open>String.prototype.includes\<close> is the test for a contiguous occurrence, true for
  the empty needle.
\<close>

definition lower_char :: "char \<Rightarrow> char" where
  "lower_char c =
     (let n = (of_char c :: nat)
      in if (65 \<le> n \<and> n \<le> 90) \<or> (192 \<le> n \<and> n \<le> 214) \<or> (216 \<le> n \<and> n \<le> 222)
         then char_of (n + 32) else c)"

definition toLowerCase :: "string \<Rightarrow> string" where
  "toLowerCase s = map lower_char s"

fun str_includes :: "string \<Rightarrow> string \<Rightarrow> bool" where
  "str_includes [] t = (t = [])"
| "str_includes (c # s) t = (prefix t (c # s) \<or> str_includes s t)"

subsection \<open>Arrays\<close>

text \<open>
  \<open>Array.prototype.findIndex\<close>: the index of the first element that satisfies the
  predicate, \<open>-1\<close> when there is none.
\<close>

fun findIndex_from :: "('a \<Rightarrow> bool) \<Rightarrow> 'a list \<Rightarrow> int \<Rightarrow> int" where
  "findIndex_from P [] k = - 1"
| "findIndex_from P (x # xs) k = (if P x then k else findIndex_from P xs (k + 1))"

definition findIndex :: "('a \<Rightarrow> bool) \<Rightarrow> 'a list \<Rightarrow> int" where
  "findIndex P xs = findIndex_from P xs 0"

text \<open>
  \<open>Array.prototype.splice(start, deleteCount, ...items)\<close> as ECMAScript defines it: a
  negative \<open>start\<close> counts from the end and is clamped at \<open>0\<close>, a \<open>start\<close> beyond the
  end is clamped at the length, and no more elements are deleted than there are from
  \<open>start\<close> on. The result is the pair of the removed elements and the array afterwards.
\<close>

definition splice_start :: "nat \<Rightarrow> int \<Rightarrow> nat" where
  "splice_start len start =
     (if start < 0 then nat (max (int len + start) 0) else min (nat start) len)"

definition array_splice :: "'a list \<Rightarrow> int \<Rightarrow> nat \<Rightarrow> 'a list \<Rightarrow> 'a list \<times> 'a list" where
  "array_splice xs start deleteCount items =
     (let actualStart = splice_start (length xs) start;
          actualDeleteCount = min deleteCount (length xs - actualStart)
      in (take actualDeleteCount (drop actualStart xs),
          take actualStart xs @ items @ drop (actualStart + actualDeleteCount) xs))"

text \<open>
  \<open>arrayMove\<close> is imported from the package \<open>@dnd-kit/sortable\<close> (line 4); its body is
  the library's:
  \<^verbatim>\<open>
  export function arrayMove<T>(array: T[], from: number, to: number): T[] {
    const newArray = array.slice();
    newArray.splice(
      to < 0 ? newArray.length + to : to,
      0,
      newArray.splice(from, 1)[0]
    );
    return newArray;
  }
  \<close>
  The arguments of the outer \<open>splice\<close> are evaluated from left to right, so the target
  position is computed from the length before the removal. The element \<open>[0]\<close> of an
  empty array of removed elements is \<open>undefined\<close>, and is inserted all the same: the
  array is therefore modelled with elements \<open>Some x\<close> or \<open>None\<close> (for \<open>undefined\<close>).
\<close>

definition arrayMove :: "'a list \<Rightarrow> int \<Rightarrow> int \<Rightarrow> 'a option list" where
  "arrayMove array from to =
     (let newArray = map Some array;
          pos = (if to < 0 then int (length newArray) + to else to);
          (removed, newArray) = array_splice newArray from 1 [];
          item = (case removed of [] \<Rightarrow> None | x # _ \<Rightarrow> x)
      in snd (array_splice newArray pos 0 [item]))"

text \<open>
  A \<open>Set\<close> of JavaScript keeps its elements in insertion order and holds none twice: it
  is a list without repetition. \<open>new Set(iterable)\<close> adds the elements one by one, and
  adding an element already there changes nothing; \<open>Set.prototype.delete\<close> removes the
  element if it is there; \<open>Set.prototype.has\<close> is membership.
\<close>

definition set_add :: "'a list \<Rightarrow> 'a \<Rightarrow> 'a list" where
  "set_add s x = (if x \<in> set s then s else s @ [x])"

definition new_Set :: "'a list \<Rightarrow> 'a list" where
  "new_Set xs = foldl set_add [] xs"

definition set_delete :: "'a list \<Rightarrow> 'a \<Rightarrow> 'a list" where
  "set_delete s x = filter (\<lambda>y. y \<noteq> x) s"

section \<open>Filter Engine (the effect of lines 190-208)\<close>

definition activeCriteriaTypes :: "SearchCriteria list \<Rightarrow> string list" where
  "activeCriteriaTypes cs = map (\<lambda>c. toLowerCase (label c)) (filter (\<lambda>c. active c) cs)"

definition matchesType :: "SearchCriteria list \<Rightarrow> Job \<Rightarrow> bool" where
  "matchesType cs job = (toLowerCase (job_type job) \<in> set (activeCriteriaTypes cs))"

definition matchesSearch :: "string \<Rightarrow> Job \<Rightarrow> bool" where
  "matchesSearch term job =
     (str_includes (toLowerCase (title job)) (toLowerCase term) \<or>
      str_includes (toLowerCase (company job)) (toLowerCase term) \<or>
      str_includes (toLowerCase (description job)) (toLowerCase term))"

definition matchesSalary :: "Profile \<Rightarrow> Job \<Rightarrow> bool" where
  "matchesSalary p job =
     (if str_includes (salary job) ''Remote'' then True
      else if remoteOnly (jobPreferences p) then False else True)"

definition filtered :: "Job list \<Rightarrow> SearchCriteria list \<Rightarrow> string \<Rightarrow> Profile \<Rightarrow> Job list" where
  "filtered jobs cs term p =
     filter (\<lambda>job. matchesType cs job \<and> matchesSearch term job \<and> matchesSalary p job) jobs"

section \<open>The state of the component \<open>App\<close> (lines 159-168)\<close>

text \<open>
  The state variables of \<open>App\<close> that the deck reads or writes; the three flags that
  choose the view on screen (\<open>showSavedJobs\<close>, \<open>showProfile\<close>, \<open>showSettings\<close>) take
  no part in it. Two fields make the deferred callbacks of \<open>setTimeout\<close> explicit:
  \<open>now\<close> is the clock, and \<open>timers\<close> holds the pending callbacks in the order in which
  they were scheduled, each with the time at which it is due and the value of
  \<open>filteredJobs\<close> that its closure captured when \<open>handleSwipe\<close> ran. One more field,
  \<open>listener\<close>, is the \<open>keydown\<close> listener that is registered on the window: the
  values of \<open>filteredJobs\<close> and \<open>currentJobIndex\<close> in the render whose \<open>handleSwipe\<close>
  it calls.
\<close>

datatype direction = Left | Right

datatype anim = swipe_left | swipe_right

datatype error = TypeError

record state =
  currentJobIndex :: nat
  animation :: "anim option"
  savedJobs :: "int list"
  profile :: Profile
  criteria :: "SearchCriteria list"
  searchTerm :: string
  filteredJobs :: "Job list"
  timers :: "(nat \<times> Job list) list"
  now :: nat
  listener :: "Job list \<times> nat"

text \<open>
  The effect of lines 177-188, with the dependency \<open>[currentJobIndex]\<close>: after a render
  in which \<open>currentJobIndex\<close> is not what it was in the render before (\<open>prev\<close>), the
  listener is replaced by one that calls the \<open>handleSwipe\<close> of this render. After any
  other render the listener stays, with the values of the render that registered it.
\<close>

definition keydown_effect :: "nat \<Rightarrow> state \<Rightarrow> state" where
  "keydown_effect prev st =
     (if currentJobIndex st \<noteq> prev
      then st\<lparr>listener := (filteredJobs st, currentJobIndex st)\<rparr> else st)"

text \<open>
  The effect of lines 190-208: recompute the filtered sequence, reset the index. The
  render that follows runs the \<open>keydown\<close> effect if the index was not 0 before.
\<close>

definition filter_effect :: "state \<Rightarrow> state" where
  "filter_effect st =
     keydown_effect (currentJobIndex st)
       (st\<lparr>filteredJobs := filtered DUMMY_JOBS (criteria st) (searchTerm st) (profile st),
           currentJobIndex := 0\<rparr>)"

text \<open>
  The state after the first render and its effects: the \<open>useState\<close> initial values, the
  listener registered by the first render, then the filter effect.
\<close>

definition init :: state where
  "init = filter_effect
     \<lparr>currentJobIndex = 0, animation = None, savedJobs = [], profile = INITIAL_PROFILE,
      criteria = INITIAL_CRITERIA, searchTerm = [], filteredJobs = DUMMY_JOBS,
      timers = [], now = 0, listener = (DUMMY_JOBS, 0)\<rparr>"

section \<open>Criteria List Manager (lines 210-220, 253-259)\<close>

text \<open>
  \<open>toggleCriteria\<close> and \<open>handleDragEnd\<close> as functions of the criteria array: the value
  that \<open>criteria\<close> holds after the call. \<open>handleDragEnd\<close> takes \<open>active.id\<close> of the drag
  event and its \<open>over\<close>: \<open>Some\<close> of \<open>over.id\<close>, or \<open>None\<close> when \<open>over\<close> is \<open>null\<close> (the
  drag ended over no criterion), in which case reading \<open>over.id\<close> throws a \<open>TypeError\<close>
  before anything is changed.
\<close>

definition toggleCriteria :: "string \<Rightarrow> SearchCriteria list \<Rightarrow> SearchCriteria list" where
  "toggleCriteria i prev = map (\<lambda>c. if crit_id c = i then c\<lparr>active := \<not> active c\<rparr> else c) prev"

definition handleDragEnd ::
  "string \<Rightarrow> string option \<Rightarrow> SearchCriteria list \<Rightarrow> error + SearchCriteria option list" where
  "handleDragEnd active_id over items =
     (case over of
        None \<Rightarrow> Inl TypeError
      | Some over_id \<Rightarrow>
          if active_id \<noteq> over_id then
            (let oldIndex = findIndex (\<lambda>item. crit_id item = active_id) items;
                 newIndex = findIndex (\<lambda>item. crit_id item = over_id) items
             in Inr (arrayMove items oldIndex newIndex))
          else Inr (map Some items))"

section \<open>Deck Cursor and Swipe Session (lines 222-233, 245-251, 261)\<close>

text \<open>
  \<open>currentJob\<close> is \<open>filteredJobs[currentJobIndex]\<close>: reading a JavaScript array out of
  range gives \<open>undefined\<close>, here \<open>None\<close>.
\<close>

definition currentJob :: "state \<Rightarrow> Job option" where
  "currentJob st =
     (if currentJobIndex st < length (filteredJobs st)
      then Some (filteredJobs st ! currentJobIndex st) else None)"

text \<open>
  \<open>handleSwipe\<close> is a closure of the render that created it: the \<open>filteredJobs\<close> and
  \<open>currentJobIndex\<close> it reads are the values of that render, while the updates it queues
  (\<open>setAnimation\<close>, the functional \<open>setSavedJobs\<close>) apply to the state as it is when it
  runs. \<open>handleSwipe_of\<close> takes the two values of the closure; the state it returns is the
  one of the render that follows the call. Reading \<open>.id\<close> of \<open>undefined\<close> throws a
  \<open>TypeError\<close>, which is the only way the handler fails. The callback given to
  \<open>setTimeout\<close> is recorded with its due time and the \<open>filteredJobs\<close> it closes over.
\<close>

definition handleSwipe_of :: "Job list \<times> nat \<Rightarrow> direction \<Rightarrow> state \<Rightarrow> error + state" where
  "handleSwipe_of closure d st =
     (let (filteredJobs_c, currentJobIndex_c) = closure in
      if length filteredJobs_c = 0 then Inr st
      else
        let st1 = st\<lparr>animation := Some (if d = Left then swipe_left else swipe_right)\<rparr>;
            saved = (if d = Right then
                       (if currentJobIndex_c < length filteredJobs_c
                        then Inr (st1\<lparr>savedJobs :=
                               new_Set (savedJobs st1 @ [job_id (filteredJobs_c ! currentJobIndex_c)])\<rparr>)
                        else Inl TypeError)
                     else Inr st1)
        in case saved of
             Inl e \<Rightarrow> Inl e
           | Inr st2 \<Rightarrow> Inr (st2\<lparr>timers := timers st2 @ [(now st2 + 300, filteredJobs_c)]\<rparr>))"

text \<open>
  The \<open>handleSwipe\<close> of the current render, which the two buttons on screen call: its
  closure holds the \<open>filteredJobs\<close> and \<open>currentJobIndex\<close> of the state.
\<close>

definition handleSwipe :: "direction \<Rightarrow> state \<Rightarrow> error + state" where
  "handleSwipe d st = handleSwipe_of (filteredJobs st, currentJobIndex st) d st"

text \<open>
  The callback of lines 229-232, with the \<open>filteredJobs\<close> of its closure; \<open>x % 0\<close> is
  \<open>NaN\<close> in JavaScript, but the guard of \<open>handleSwipe\<close> lets no empty sequence be
  captured. The render that follows runs the \<open>keydown\<close> effect if the index changed.
\<close>

definition timer_callback :: "Job list \<Rightarrow> state \<Rightarrow> state" where
  "timer_callback fj st =
     keydown_effect (currentJobIndex st)
       (st\<lparr>currentJobIndex := (currentJobIndex st + 1) mod length fj, animation := None\<rparr>)"

text \<open>
  Letting time pass until \<open>t\<close>: the pending callbacks that are due by then run in the
  order in which they were scheduled, and leave the queue.
\<close>

fun run_due :: "nat \<Rightarrow> (nat \<times> Job list) list \<Rightarrow> state \<Rightarrow> state" where
  "run_due t [] st = st"
| "run_due t ((due, fj) # ts) st =
     (if due \<le> t then run_due t ts (timer_callback fj st) else run_due t ts st)"

definition advance_to :: "nat \<Rightarrow> state \<Rightarrow> state" where
  "advance_to t st =
     (run_due t (timers st) st)
       \<lparr>timers := filter (\<lambda>(due, fj). \<not> due \<le> t) (timers st), now := max (now st) t\<rparr>"

definition handleRemoveSaved :: "int \<Rightarrow> state \<Rightarrow> state" where
  "handleRemoveSaved jobId st = st\<lparr>savedJobs := set_delete (new_Set (savedJobs st)) jobId\<rparr>"

text \<open>
  The events that change an input of the filter effect: React runs the effect after the
  render that follows, when one of \<open>criteria\<close>, \<open>searchTerm\<close> and
  \<open>profile.jobPreferences\<close> is no longer the same value (a string) or the same object
  (an array, the preferences). \<open>toggleCriteria\<close> always builds a new array, and the
  preferences form always builds a new \<open>jobPreferences\<close> object.
\<close>

definition toggle_event :: "string \<Rightarrow> state \<Rightarrow> state" where
  "toggle_event i st = filter_effect (st\<lparr>criteria := toggleCriteria i (criteria st)\<rparr>)"

definition search_event :: "string \<Rightarrow> state \<Rightarrow> state" where
  "search_event s st = (if s = searchTerm st then st else filter_effect (st\<lparr>searchTerm := s\<rparr>))"

definition preferences_event :: "JobPreferences \<Rightarrow> state \<Rightarrow> state" where
  "preferences_event prefs st =
     filter_effect (st\<lparr>profile := (profile st)\<lparr>jobPreferences := prefs\<rparr>\<rparr>)"

text \<open>Running a handler on the result of an earlier one: a fault ends the run.\<close>

definition and_then :: "error + state \<Rightarrow> (state \<Rightarrow> error + state) \<Rightarrow> error + state" where
  "and_then r f = (case r of Inl e \<Rightarrow> Inl e | Inr st \<Rightarrow> f st)"

section \<open>Events and runs\<close>

text \<open>
  What can happen to the component, one event at a time: a swipe with a button on
  screen (\<open>Swipe\<close>, the handler of the current render), an arrow key (\<open>KeyDown\<close>, the
  handler that the registered listener holds), time passing, and the user changing an
  input of the filter. A drag that ends on another criterion replaces \<open>criteria\<close> by the
  array that \<open>arrayMove\<close> returns, and the filter effect then reads \<open>c.active\<close> of every
  element: on an element \<open>undefined\<close> that is a \<open>TypeError\<close>.
\<close>

datatype event =
    Swipe direction
  | KeyDown direction
  | Elapse nat
  | ToggleCriterion string
  | MoveCriterion string "string option"
  | SetSearchTerm string
  | SetPreferences JobPreferences
  | RemoveSaved int

definition drag_event :: "string \<Rightarrow> string option \<Rightarrow> state \<Rightarrow> error + state" where
  "drag_event active_id over st =
     (case handleDragEnd active_id over (criteria st) of
        Inl e \<Rightarrow> Inl e
      | Inr items \<Rightarrow>
          if Some active_id \<noteq> over then
            (case those items of
               None \<Rightarrow> Inl TypeError
             | Some cs \<Rightarrow> Inr (filter_effect (st\<lparr>criteria := cs\<rparr>)))
          else Inr st)"

fun step :: "event \<Rightarrow> state \<Rightarrow> error + state" where
  "step (Swipe d) st = handleSwipe d st"
| "step (KeyDown d) st = handleSwipe_of (listener st) d st"
| "step (Elapse n) st = Inr (advance_to (now st + n) st)"
| "step (ToggleCriterion i) st = Inr (toggle_event i st)"
| "step (MoveCriterion a b) st = drag_event a b st"
| "step (SetSearchTerm s) st = Inr (search_event s st)"
| "step (SetPreferences p) st = Inr (preferences_event p st)"
| "step (RemoveSaved j) st = Inr (handleRemoveSaved j st)"

fun run :: "event list \<Rightarrow> state \<Rightarrow> error + state" where
  "run [] st = Inr st"
| "run (e # es) st = and_then (step e st) (run es)"

text \<open>Swipes that are each left to settle: every one is followed by the 300 units of its delay.\<close>

definition settle_each :: "event list \<Rightarrow> event list" where
  "settle_each gs = concat (map (\<lambda>g. [g, Elapse 300]) gs)"

text \<open>
  A swipe in direction \<open>d\<close> that runs the handler of the current render: with a button,
  or with an arrow key while the listener holds the values of the current render.
\<close>

definition current_handler :: "event \<Rightarrow> direction \<Rightarrow> state \<Rightarrow> bool" where
  "current_handler g d st =
     (g = Swipe d \<or> (g = KeyDown d \<and> listener st = (filteredJobs st, currentJobIndex st)))"

section \<open>Auxiliary notions for the statements\<close>

text \<open>
  Comparing two strings case-insensitively, in the words of the specification and
  without \<open>toLowerCase\<close>: the strings have the same length, and at every position the two
  code units are the same, or one is a capital letter (\<open>A\<close> to \<open>Z\<close>, or a capital letter
  of Latin-1) and the other is its small letter, 32 places further.
\<close>

definition capital_of :: "char \<Rightarrow> char \<Rightarrow> bool" where
  "capital_of C c =
     (of_char c = (of_char C :: nat) + 32 \<and>
      (of_char C \<in> {65..90::nat} \<or> of_char C \<in> {192..214::nat} \<or> of_char C \<in> {216..222::nat}))"

definition same_char_ignoring_case :: "char \<Rightarrow> char \<Rightarrow> bool" where
  "same_char_ignoring_case c d = (c = d \<or> capital_of c d \<or> capital_of d c)"

definition equal_ignoring_case :: "string \<Rightarrow> string \<Rightarrow> bool" where
  "equal_ignoring_case s t = list_all2 same_char_ignoring_case s t"



text \<open>The initial criteria with every one of them switched off.\<close>

definition all_off :: "SearchCriteria list" where
  "all_off = map (\<lambda>c. c\<lparr>active := False\<rparr>) INITIAL_CRITERIA"

text \<open>
  The state in which the first listing has been accepted and the deck has gone round
  once, so that the same listing is the current one again.
\<close>

definition saved_first :: state where
  "saved_first = init\<lparr>savedJobs := [1], now := 1200\<rparr>"

text \<open>
  The state 100 units after a swipe to the left from the initial state: the transition
  is under way and its callback is pending.
\<close>

definition mid_transition :: state where
  "mid_transition = init\<lparr>animation := Some swipe_left, timers := [(300, DUMMY_JOBS)], now := 100\<rparr>"

text \<open>The second listing of the source with its employment kind in capital letters.\<close>

definition shouting_intern :: Job where
  "shouting_intern = (DUMMY_JOBS ! 1)\<lparr>job_type := ''INTERNSHIP''\<rparr>"

text \<open>The preferences of the initial profile with "Remote jobs only" ticked.\<close>

definition remote_prefs :: JobPreferences where
  "remote_prefs = \<lparr>minSalary = 120000, maxDistance = 50, remoteOnly = True\<rparr>"

section \<open>Basic facts\<close>

subsection \<open>Sets as lists without repetition\<close>

lemma foldl_set_add_set: "set (foldl set_add acc xs) = set acc \<union> set xs"
  by (induction xs arbitrary: acc) (auto simp: set_add_def)

lemma foldl_set_add_distinct: "distinct acc \<Longrightarrow> distinct (foldl set_add acc xs)"
  by (induction xs arbitrary: acc) (auto simp: set_add_def)

lemma foldl_set_add_id: "distinct (acc @ xs) \<Longrightarrow> foldl set_add acc xs = acc @ xs"
proof (induction xs arbitrary: acc)
  case Nil
  then show ?case by simp
next
  case (Cons x xs)
  have "foldl set_add (acc @ [x]) xs = (acc @ [x]) @ xs"
    by (rule Cons.IH) (use Cons.prems in auto)
  moreover have "set_add acc x = acc @ [x]"
    using Cons.prems by (simp add: set_add_def)
  ultimately show ?case by simp
qed

lemma new_Set_distinct: "distinct (new_Set xs)"
  by (simp add: new_Set_def foldl_set_add_distinct)

lemma set_new_Set: "set (new_Set xs) = set xs"
  by (simp add: new_Set_def foldl_set_add_set)

lemma new_Set_id: "distinct s \<Longrightarrow> new_Set s = s"
  using foldl_set_add_id [of "[]" s] by (simp add: new_Set_def)

lemma new_Set_snoc: "new_Set (s @ [x]) = set_add (new_Set s) x"
  by (simp add: new_Set_def)

lemma count_list_distinct: "distinct xs \<Longrightarrow> x \<in> set xs \<Longrightarrow> count_list xs x = 1"
  by (induction xs) (auto simp: count_list_0_iff)

subsection \<open>Lower case and comparison without regard to case\<close>

lemma of_char_lt: "(of_char (c::char) :: nat) < 256"
  by (cases c) (simp add: of_char_def)

lemma lower_char_eq_iff: "lower_char c = lower_char d \<longleftrightarrow> same_char_ignoring_case c d"
proof -
  obtain n where n: "n = (of_char c :: nat)" by simp
  obtain m where m: "m = (of_char d :: nat)" by simp
  have c: "c = char_of n" and d: "d = char_of m" by (simp_all add: n m)
  have ln: "n < 256" and lm: "m < 256" using of_char_lt by (simp_all add: n m)
  have inj: "\<And>a b. a < 256 \<Longrightarrow> b < 256 \<Longrightarrow> (char_of (a::nat) = (char_of b :: char)) = (a = b)"
    by (metis mod_less of_char_of)
  have cd: "c = d \<longleftrightarrow> n = m" using inj ln lm c d by simp
  show ?thesis
    unfolding lower_char_def same_char_ignoring_case_def capital_of_def Let_def
      n [symmetric] m [symmetric] cd
    using ln lm inj [of "n + 32" "m + 32"] inj [of "n + 32" m] inj [of n "m + 32"]
    by (auto simp: c d)
qed

lemma toLowerCase_eq_iff: "toLowerCase s = toLowerCase t \<longleftrightarrow> equal_ignoring_case s t"
  unfolding toLowerCase_def equal_ignoring_case_def
proof (induction s arbitrary: t)
  case Nil
  then show ?case by auto
next
  case (Cons a s)
  then show ?case by (cases t) (auto simp: lower_char_eq_iff)
qed

subsection \<open>Sequencing\<close>

lemma and_then_Inr [simp]: "and_then (Inr s) f = f s"
  by (simp add: and_then_def)

lemma and_then_Inl [simp]: "and_then (Inl e) f = Inl e"
  by (simp add: and_then_def)

subsection \<open>The filter on the listings of the source\<close>

lemma str_includes_Nil: "str_includes s []"
  by (cases s) simp_all

lemma matchesSearch_Nil: "matchesSearch [] job"
  by (simp add: matchesSearch_def toLowerCase_def str_includes_Nil)

lemma filtered_no_term:
  "filtered jobs cs [] p = filter (\<lambda>job. matchesType cs job \<and> matchesSalary p job) jobs"
  by (simp add: filtered_def matchesSearch_Nil)

lemma DUMMY_JOBS_facts:
  "length DUMMY_JOBS = 4" "DUMMY_JOBS \<noteq> []"
  "job_id (DUMMY_JOBS ! 0) = 1" "job_id (DUMMY_JOBS ! 1) = 2"
  by (simp_all add: DUMMY_JOBS_def)

lemma filtered_init: "filtered DUMMY_JOBS INITIAL_CRITERIA [] INITIAL_PROFILE = DUMMY_JOBS"
  unfolding filtered_no_term by code_simp

lemma filtered_ux:
  "filtered DUMMY_JOBS INITIAL_CRITERIA ''ux'' INITIAL_PROFILE = [DUMMY_JOBS ! 1]"
  by code_simp

lemma filtered_remote:
  "filtered DUMMY_JOBS INITIAL_CRITERIA [] (INITIAL_PROFILE\<lparr>jobPreferences := remote_prefs\<rparr>) = []"
  unfolding filtered_no_term by code_simp

lemma filtered_toggled:
  "filtered DUMMY_JOBS (toggleCriteria ''permanent'' INITIAL_CRITERIA) [] INITIAL_PROFILE =
     [DUMMY_JOBS ! 1, DUMMY_JOBS ! 2]"
  "filtered DUMMY_JOBS (toggleCriteria ''fixed-term'' (toggleCriteria ''permanent'' INITIAL_CRITERIA))
     [] INITIAL_PROFILE = [DUMMY_JOBS ! 1]"
  unfolding filtered_no_term by code_simp+

subsection \<open>The initial state and three states reached from it\<close>

lemma init_eq:
  "init = \<lparr>currentJobIndex = 0, animation = None, savedJobs = [], profile = INITIAL_PROFILE,
      criteria = INITIAL_CRITERIA, searchTerm = [], filteredJobs = DUMMY_JOBS,
      timers = [], now = 0, listener = (DUMMY_JOBS, 0)\<rparr>"
  by (simp add: init_def filter_effect_def keydown_effect_def filtered_init)

lemmas trace_defs =
  init_eq handleSwipe_def handleSwipe_of_def advance_to_def timer_callback_def keydown_effect_def
  filter_effect_def search_event_def toggle_event_def preferences_event_def
  new_Set_def set_add_def settle_each_def DUMMY_JOBS_facts
  filtered_ux filtered_remote filtered_toggled

lemma remote_only_empty: "filteredJobs (preferences_event remote_prefs init) = []"
  by (simp add: trace_defs)

lemma saved_first_reached:
  "run (settle_each [Swipe Right, Swipe Left, Swipe Left, Swipe Left]) init = Inr saved_first"
  by (simp add: trace_defs saved_first_def)

lemma mid_transition_reached: "run [Swipe Left, Elapse 100] init = Inr mid_transition"
  by (simp add: trace_defs mid_transition_def)

subsection \<open>What the effects and the callback leave alone\<close>

lemma keydown_effect_fields [simp]:
  "currentJobIndex (keydown_effect p st) = currentJobIndex st"
  "animation (keydown_effect p st) = animation st"
  "savedJobs (keydown_effect p st) = savedJobs st"
  "profile (keydown_effect p st) = profile st"
  "criteria (keydown_effect p st) = criteria st"
  "searchTerm (keydown_effect p st) = searchTerm st"
  "filteredJobs (keydown_effect p st) = filteredJobs st"
  "timers (keydown_effect p st) = timers st"
  "now (keydown_effect p st) = now st"
  by (simp_all add: keydown_effect_def)

lemma timer_callback_fields [simp]:
  "currentJobIndex (timer_callback fj st) = (currentJobIndex st + 1) mod length fj"
  "animation (timer_callback fj st) = None"
  "savedJobs (timer_callback fj st) = savedJobs st"
  "profile (timer_callback fj st) = profile st"
  "criteria (timer_callback fj st) = criteria st"
  "searchTerm (timer_callback fj st) = searchTerm st"
  "filteredJobs (timer_callback fj st) = filteredJobs st"
  "timers (timer_callback fj st) = timers st"
  "now (timer_callback fj st) = now st"
  by (simp_all add: timer_callback_def)

lemma timer_callback_listener:
  "listener (timer_callback fj st) =
     (if (currentJobIndex st + 1) mod length fj \<noteq> currentJobIndex st
      then (filteredJobs st, (currentJobIndex st + 1) mod length fj) else listener st)"
  by (simp add: timer_callback_def keydown_effect_def)

subsection \<open>A swipe at a valid index\<close>

lemma handleSwipe_valid:
  "currentJobIndex st < length (filteredJobs st) \<Longrightarrow>
   handleSwipe d st =
     Inr (st\<lparr>animation := Some (if d = Left then swipe_left else swipe_right),
             savedJobs := (if d = Right
                           then new_Set (savedJobs st @ [job_id (filteredJobs st ! currentJobIndex st)])
                           else savedJobs st),
             timers := timers st @ [(now st + 300, filteredJobs st)]\<rparr>)"
  by (cases d) (auto simp: handleSwipe_def handleSwipe_of_def Let_def)

lemma handleSwipe_of_empty: "fst closure = [] \<Longrightarrow> handleSwipe_of closure d st = Inr st"
  by (cases closure) (simp add: handleSwipe_of_def)

lemma step_current_handler: "current_handler g d st \<Longrightarrow> step g st = handleSwipe d st"
  by (auto simp: current_handler_def handleSwipe_def)

subsection \<open>Runs\<close>

lemma run_append: "run (es @ fs) st = and_then (run es st) (run fs)"
  by (induction es arbitrary: st) (auto simp: and_then_def split: sum.splits)

lemma currentJob_SomeD:
  "currentJob st = Some job \<Longrightarrow>
   currentJobIndex st < length (filteredJobs st) \<and> job = filteredJobs st ! currentJobIndex st"
  by (auto simp: currentJob_def split: if_splits)

lemma set_add_member: "x \<in> set s \<Longrightarrow> set_add s x = s"
  by (simp add: set_add_def)

lemma swipe_Right_saved:
  assumes "currentJob st = Some job"
  shows "\<exists>s1. handleSwipe Right st = Inr s1 \<and> currentJob s1 = Some job \<and>
           savedJobs s1 = set_add (new_Set (savedJobs st)) (job_id job)"
proof -
  from assms have idx: "currentJobIndex st < length (filteredJobs st)"
    and job: "job = filteredJobs st ! currentJobIndex st"
    by (simp_all add: currentJob_SomeD)
  show ?thesis
    using handleSwipe_valid [OF idx, of Right] idx job
    by (simp add: currentJob_def new_Set_snoc)
qed

lemma swipes_Right_saved:
  assumes "currentJob st = Some job" and "0 < n"
  shows "\<exists>sn. run (replicate n (Swipe Right)) st = Inr sn \<and> currentJob sn = Some job \<and>
           savedJobs sn = set_add (new_Set (savedJobs st)) (job_id job)"
  using assms
proof (induction n arbitrary: st)
  case 0
  then show ?case by simp
next
  case (Suc n)
  from swipe_Right_saved [OF Suc.prems(1)] obtain s1 where
    s1: "handleSwipe Right st = Inr s1" "currentJob s1 = Some job"
      "savedJobs s1 = set_add (new_Set (savedJobs st)) (job_id job)"
    by blast
  show ?case
  proof (cases "n = 0")
    case True
    with s1 show ?thesis by simp
  next
    case False
    with Suc.IH [OF s1(2)] obtain sn where
      sn: "run (replicate n (Swipe Right)) s1 = Inr sn" "currentJob sn = Some job"
        "savedJobs sn = set_add (new_Set (savedJobs s1)) (job_id job)"
      by blast
    have d: "distinct (savedJobs s1)"
      by (simp add: s1(3) set_add_def new_Set_distinct set_new_Set)
    have m: "job_id job \<in> set (savedJobs s1)"
      by (simp add: s1(3) set_add_def)
    have "savedJobs sn = savedJobs s1"
      by (simp add: sn(3) new_Set_id [OF d] set_add_member [OF m])
    with s1 sn show ?thesis by simp
  qed
qed

lemma swipe_settle_step:
  assumes idx: "currentJobIndex st < length (filteredJobs st)" and idle: "timers st = []"
    and cur: "current_handler g d st"
  shows "\<exists>s1. run [g, Elapse 300] st = Inr s1 \<and>
           currentJobIndex s1 = (currentJobIndex st + 1) mod length (filteredJobs st) \<and>
           filteredJobs s1 = filteredJobs st \<and> timers s1 = [] \<and> animation s1 = None \<and>
           (\<forall>g' d'. current_handler g' d' st \<longrightarrow> current_handler g' d' s1)"
proof -
  let ?s = "st\<lparr>animation := Some (if d = Left then swipe_left else swipe_right),
             savedJobs := (if d = Right
                           then new_Set (savedJobs st @ [job_id (filteredJobs st ! currentJobIndex st)])
                           else savedJobs st),
             timers := [(now st + 300, filteredJobs st)]\<rparr>"
  let ?s1 = "advance_to (now ?s + 300) ?s"
  have sw: "step g st = Inr ?s"
    using handleSwipe_valid [OF idx, of d] idle step_current_handler [OF cur] by simp
  have r: "run [g, Elapse 300] st = Inr ?s1"
    using sw by simp
  have f: "currentJobIndex ?s1 = (currentJobIndex st + 1) mod length (filteredJobs st)"
    "filteredJobs ?s1 = filteredJobs st" "timers ?s1 = []" "animation ?s1 = None"
    by (simp_all add: advance_to_def)
  have l: "listener ?s1 =
     (if (currentJobIndex st + 1) mod length (filteredJobs st) \<noteq> currentJobIndex st
      then (filteredJobs st, (currentJobIndex st + 1) mod length (filteredJobs st))
      else listener st)"
    by (simp add: advance_to_def timer_callback_listener)
  have keep: "current_handler g' d' ?s1" if "current_handler g' d' st" for g' d'
    using that unfolding current_handler_def f l by auto
  from r f keep show ?thesis by blast
qed

lemma settle_each_index:
  assumes "currentJobIndex st < length (filteredJobs st)" and "timers st = []"
    and "\<forall>g \<in> set gs. \<exists>d. current_handler g d st"
  shows "\<exists>s'. run (settle_each gs) st = Inr s' \<and>
           currentJobIndex s' = (currentJobIndex st + length gs) mod length (filteredJobs st) \<and>
           filteredJobs s' = filteredJobs st \<and> timers s' = []"
  using assms
proof (induction gs arbitrary: st)
  case Nil
  then show ?case by (simp add: settle_each_def)
next
  case (Cons g gs)
  from Cons.prems(3) obtain d where d: "current_handler g d st" by auto
  from swipe_settle_step [OF Cons.prems(1,2) d] obtain s1 where
    s1: "run [g, Elapse 300] st = Inr s1"
      "currentJobIndex s1 = (currentJobIndex st + 1) mod length (filteredJobs st)"
      "filteredJobs s1 = filteredJobs st" "timers s1 = []"
      "\<forall>g' d'. current_handler g' d' st \<longrightarrow> current_handler g' d' s1"
    by blast
  have pos: "0 < length (filteredJobs st)"
    using Cons.prems(1) by (cases "filteredJobs st") simp_all
  have idx1: "currentJobIndex s1 < length (filteredJobs s1)"
    using pos by (simp add: s1(2,3))
  have cur1: "\<forall>g \<in> set gs. \<exists>d. current_handler g d s1"
    using Cons.prems(3) s1(5) by (metis list.set_intros(2))
  from Cons.IH [OF idx1 s1(4) cur1] obtain s' where
    s': "run (settle_each gs) s1 = Inr s'"
      "currentJobIndex s' = (currentJobIndex s1 + length gs) mod length (filteredJobs s1)"
      "filteredJobs s' = filteredJobs s1" "timers s' = []"
    by blast
  have "settle_each (g # gs) = [g, Elapse 300] @ settle_each gs"
    by (simp add: settle_each_def)
  then have "run (settle_each (g # gs)) st = run (settle_each gs) s1"
    using s1(1) by (simp only: run_append and_then_Inr)
  moreover have "currentJobIndex s' = (currentJobIndex st + length (g # gs)) mod length (filteredJobs st)"
    by (simp add: s'(2) s1(2,3) mod_add_left_eq add.assoc)
  ultimately show ?case using s' s1(3) by simp
qed

subsection \<open>Finding and moving in an array\<close>

lemma findIndex_from_absent: "\<forall>x \<in> set xs. \<not> P x \<Longrightarrow> findIndex_from P xs k = - 1"
  by (induction xs arbitrary: k) auto

lemma findIndex_from_present:
  "\<exists>x \<in> set xs. P x \<Longrightarrow>
   \<exists>i < length xs. findIndex_from P xs k = k + int i \<and> P (xs ! i) \<and> (\<forall>j < i. \<not> P (xs ! j))"
proof (induction xs arbitrary: k)
  case Nil
  then show ?case by simp
next
  case (Cons x xs)
  show ?case
  proof (cases "P x")
    case True
    then show ?thesis by (intro exI [of _ 0]) simp
  next
    case False
    with Cons.prems have "\<exists>x \<in> set xs. P x" by simp
    from Cons.IH [OF this, of "k + 1"] obtain i where
      i: "i < length xs" "findIndex_from P xs (k + 1) = k + 1 + int i" "P (xs ! i)"
        "\<forall>j < i. \<not> P (xs ! j)"
      by blast
    show ?thesis
    proof (intro exI [of _ "Suc i"] conjI allI impI)
      show "Suc i < length (x # xs)" using i(1) by simp
      show "findIndex_from P (x # xs) k = k + int (Suc i)" using False i(2) by simp
      show "P ((x # xs) ! Suc i)" using i(3) by simp
      show "\<not> P ((x # xs) ! j)" if "j < Suc i" for j
        using that False i(4) by (cases j) auto
    qed
  qed
qed

lemma findIndex_present:
  "\<exists>x \<in> set xs. P x \<Longrightarrow>
   \<exists>i < length xs. findIndex P xs = int i \<and> P (xs ! i) \<and> (\<forall>j < i. \<not> P (xs ! j))"
  using findIndex_from_present [of xs P 0] by (simp add: findIndex_def)

lemma findIndex_absent: "\<forall>x \<in> set xs. \<not> P x \<Longrightarrow> findIndex P xs = - 1"
  by (simp add: findIndex_def findIndex_from_absent)

lemma findIndex_less: "findIndex P xs < int (length xs)"
proof (cases "\<exists>x \<in> set xs. P x")
  case True
  from findIndex_present [OF this] show ?thesis by auto
next
  case False
  then show ?thesis by (simp add: findIndex_absent)
qed


lemma splice_start_le: "splice_start n f \<le> n"
  by (auto simp: splice_start_def)







lemma handleDragEnd_null: "handleDragEnd a None items = Inl TypeError"
  by (simp add: handleDragEnd_def)


subsection \<open>The filter effect resets the index\<close>

lemma recompute_resets_index:
  "currentJobIndex (filter_effect st) = 0"
  "currentJobIndex (toggle_event i st) = 0"
  "currentJobIndex (preferences_event prefs st) = 0"
  "s \<noteq> searchTerm st \<Longrightarrow> currentJobIndex (search_event s st) = 0"
  by (simp_all add: filter_effect_def keydown_effect_def toggle_event_def preferences_event_def
      search_event_def)

section \<open>The claims\<close>

text \<open>
  C1. The deferred advance uses the \<open>filteredJobs\<close> of the render in which the swipe was
  made. From the initial state, a swipe, then the search term \<open>ux\<close> (which leaves one
  listing and resets the index to 0), then the 300 units of the delay: the callback
  sets the index to \<open>(0 + 1) mod 4 = 1\<close>, out of range for the one listing left, and
  \<open>currentJob\<close> is \<open>undefined\<close> on a non-empty sequence. The same happens when a criterion
  is switched off between the swipe and its callback, and when the swipe is made with an
  arrow key.
\<close>

theorem stale_advance_out_of_range:
  "run [Swipe Left, SetSearchTerm ''ux''] init =
     Inr (init\<lparr>animation := Some swipe_left, searchTerm := ''ux'',
               filteredJobs := [DUMMY_JOBS ! 1], timers := [(300, DUMMY_JOBS)]\<rparr>) \<and>
   run [Swipe Left, SetSearchTerm ''ux'', Elapse 300] init =
     Inr (init\<lparr>currentJobIndex := 1, searchTerm := ''ux'',
               filteredJobs := [DUMMY_JOBS ! 1], now := 300,
               listener := ([DUMMY_JOBS ! 1], 1)\<rparr>) \<and>
   currentJob (init\<lparr>currentJobIndex := 1, searchTerm := ''ux'',
               filteredJobs := [DUMMY_JOBS ! 1], now := 300,
               listener := ([DUMMY_JOBS ! 1], 1)\<rparr>) = None \<and>
   map_sum id (\<lambda>s. (currentJobIndex s, length (filteredJobs s)))
     (run [ToggleCriterion ''permanent'', Swipe Left, ToggleCriterion ''fixed-term'', Elapse 300] init)
     = Inr (1, 1) \<and>
   run [KeyDown Left, SetSearchTerm ''ux'', Elapse 300] init =
     run [Swipe Left, SetSearchTerm ''ux'', Elapse 300] init"
  by (simp add: trace_defs currentJob_def)

text \<open>
  C2. With "Remote jobs only" ticked, the second listing of the source, whose location
  is \<open>Remote\<close>, does not pass \<open>matchesSalary\<close>: the test reads the salary text and
  never the location. The filtered sequence of the initial listings is then empty,
  although two of them are remote.
\<close>

theorem remote_filter_reads_salary_only:
  "remoteOnly (jobPreferences (INITIAL_PROFILE\<lparr>jobPreferences := remote_prefs\<rparr>)) \<and>
   location (DUMMY_JOBS ! 1) = ''Remote'' \<and>
   \<not> matchesSalary (INITIAL_PROFILE\<lparr>jobPreferences := remote_prefs\<rparr>) (DUMMY_JOBS ! 1) \<and>
   filtered DUMMY_JOBS INITIAL_CRITERIA [] (INITIAL_PROFILE\<lparr>jobPreferences := remote_prefs\<rparr>) = []"
  by code_simp

text \<open>
  C3, as stated: of two swipes of which the second is issued before the delay of the
  first has passed, only the later one advances the cursor. It fails: from the initial
  state, a swipe, 100 units, a second swipe and 300 units more leave the index at 2,
  not at \<open>(0 + 1) mod 4\<close>.
\<close>

theorem latest_wins_counterexample:
  "map_sum id currentJobIndex (run [Swipe Left, Elapse 100, Swipe Left, Elapse 300] init) = Inr 2 \<and>
   map_sum id currentJobIndex (run [Swipe Left, Elapse 100, Swipe Left, Elapse 300] init) \<noteq>
     Inr ((currentJobIndex init + 1) mod length (filteredJobs init))"
  by (simp add: trace_defs)

text \<open>
  C3, amended. No callback is ever cancelled. Take a state whose index points into
  the filtered sequence and in which no callback is pending, and two swipes that each
  run the handler of the current render (a button, or an arrow key while the listener
  holds the values of the current render), the second one \<open>e < 300\<close> units after the
  first, with no other event in between. Then both immediate effects have run: the
  marker shows the later direction, and the identifier of the current listing, the
  same for both swipes, is saved if either swipe was to the right. Both callbacks are
  pending, in the order of the calls. From 300 units after the first call and until
  300 units after the second, the cursor has advanced once and the marker is already
  none; once 300 units have passed since the second call the cursor has advanced
  twice, modulo the length, the marker is none and nothing is pending.
\<close>

theorem overlapping_swipes_both_advance:
  assumes idx: "currentJobIndex st < length (filteredJobs st)"
    and idle: "timers st = []"
    and gap: "e < 300"
    and c1: "current_handler g1 d1 st"
    and c2: "current_handler g2 d2 st"
  shows "\<exists>s2. run [g1, Elapse e, g2] st = Inr s2 \<and>
           currentJobIndex s2 = currentJobIndex st \<and>
           animation s2 = Some (if d2 = Left then swipe_left else swipe_right) \<and>
           (d1 = Right \<or> d2 = Right \<longrightarrow>
              job_id (filteredJobs st ! currentJobIndex st) \<in> set (savedJobs s2)) \<and>
           timers s2 = [(now st + 300, filteredJobs st), (now st + e + 300, filteredJobs st)] \<and>
           (\<forall>w. 300 - e \<le> w \<and> w < 300 \<longrightarrow>
              (\<exists>s3. run [Elapse w] s2 = Inr s3 \<and>
                 currentJobIndex s3 = (currentJobIndex st + 1) mod length (filteredJobs st) \<and>
                 animation s3 = None \<and>
                 timers s3 = [(now st + e + 300, filteredJobs st)])) \<and>
           (\<forall>w \<ge> 300.
              (\<exists>s4. run [Elapse w] s2 = Inr s4 \<and>
                 currentJobIndex s4 = (currentJobIndex st + 2) mod length (filteredJobs st) \<and>
                 animation s4 = None \<and> timers s4 = []))"
proof -
  let ?x = "job_id (filteredJobs st ! currentJobIndex st)"
  let ?s1 = "st\<lparr>animation := Some (if d1 = Left then swipe_left else swipe_right),
                 savedJobs := (if d1 = Right then new_Set (savedJobs st @ [?x]) else savedJobs st),
                 timers := [(now st + 300, filteredJobs st)]\<rparr>"
  let ?s1' = "?s1\<lparr>now := now st + e\<rparr>"
  let ?s2 = "?s1'\<lparr>animation := Some (if d2 = Left then swipe_left else swipe_right),
                 savedJobs := (if d2 = Right then new_Set (savedJobs ?s1' @ [?x]) else savedJobs ?s1'),
                 timers := [(now st + 300, filteredJobs st), (now st + e + 300, filteredJobs st)]\<rparr>"
  have a: "step g1 st = Inr ?s1"
    using handleSwipe_valid [OF idx, of d1] idle step_current_handler [OF c1] by simp
  have b: "advance_to (now ?s1 + e) ?s1 = ?s1'"
    using gap by (simp add: advance_to_def)
  have idx': "currentJobIndex ?s1' < length (filteredJobs ?s1')"
    using idx by simp
  have c2': "current_handler g2 d2 ?s1'"
    using c2 by (simp add: current_handler_def)
  have c: "step g2 ?s1' = Inr ?s2"
    using handleSwipe_valid [OF idx', of d2] step_current_handler [OF c2'] by simp
  have r: "run [g1, Elapse e, g2] st = Inr ?s2"
    using a b c by simp
  have saved: "d1 = Right \<or> d2 = Right \<longrightarrow> ?x \<in> set (savedJobs ?s2)"
    by (auto simp: set_new_Set)
  have mid: "\<forall>w. 300 - e \<le> w \<and> w < 300 \<longrightarrow>
              (\<exists>s3. run [Elapse w] ?s2 = Inr s3 \<and>
                 currentJobIndex s3 = (currentJobIndex st + 1) mod length (filteredJobs st) \<and>
                 animation s3 = None \<and>
                 timers s3 = [(now st + e + 300, filteredJobs st)])"
    using gap by (auto simp: advance_to_def)
  have fin: "\<forall>w \<ge> 300.
              (\<exists>s4. run [Elapse w] ?s2 = Inr s4 \<and>
                 currentJobIndex s4 = (currentJobIndex st + 2) mod length (filteredJobs st) \<and>
                 animation s4 = None \<and> timers s4 = [])"
    using gap by (auto simp: advance_to_def mod_Suc_eq)
  show ?thesis
    apply (rule exI [of _ ?s2])
    using r saved mid fin by simp
qed

theorem overlapping_swipes_both_advance_witness:
  "currentJobIndex init < length (filteredJobs init) \<and> timers init = [] \<and> (100::nat) < 300 \<and>
   current_handler (KeyDown Right) Right init \<and> current_handler (Swipe Left) Left init \<and>
   (\<exists>s2. run [KeyDown Right, Elapse 100, Swipe Left] init = Inr s2 \<and>
      currentJobIndex s2 = currentJobIndex init \<and>
      animation s2 = Some swipe_left \<and>
      job_id (filteredJobs init ! currentJobIndex init) \<in> set (savedJobs s2) \<and>
      (\<exists>s3. run [Elapse 250] s2 = Inr s3 \<and>
         currentJobIndex s3 = (currentJobIndex init + 1) mod length (filteredJobs init) \<and>
         animation s3 = None) \<and>
      (\<exists>s4. run [Elapse 300] s2 = Inr s4 \<and>
         currentJobIndex s4 = (currentJobIndex init + 2) mod length (filteredJobs init) \<and>
         animation s4 = None \<and> timers s4 = []))"
proof -
  have h: "currentJobIndex init < length (filteredJobs init)" "timers init = []" "(100::nat) < 300"
    "current_handler (KeyDown Right) Right init" "current_handler (Swipe Left) Left init"
    by (simp_all add: init_eq DUMMY_JOBS_def current_handler_def)
  have w: "300 - (100::nat) \<le> 250 \<and> (250::nat) < 300" "(300::nat) \<le> 300"
    by simp_all
  from overlapping_swipes_both_advance [OF h] obtain s2 where
    s2: "run [KeyDown Right, Elapse 100, Swipe Left] init = Inr s2"
      "currentJobIndex s2 = currentJobIndex init"
      "animation s2 = Some (if Left = Left then swipe_left else swipe_right)"
      "Right = Right \<or> Left = Right \<longrightarrow>
         job_id (filteredJobs init ! currentJobIndex init) \<in> set (savedJobs s2)"
      "\<forall>w. 300 - 100 \<le> w \<and> w < 300 \<longrightarrow>
         (\<exists>s3. run [Elapse w] s2 = Inr s3 \<and>
            currentJobIndex s3 = (currentJobIndex init + 1) mod length (filteredJobs init) \<and>
            animation s3 = None \<and>
            timers s3 = [(now init + 100 + 300, filteredJobs init)])"
      "\<forall>w \<ge> 300.
         (\<exists>s4. run [Elapse w] s2 = Inr s4 \<and>
            currentJobIndex s4 = (currentJobIndex init + 2) mod length (filteredJobs init) \<and>
            animation s4 = None \<and> timers s4 = [])"
    by blast
  from s2(5) w(1) have m: "\<exists>s3. run [Elapse 250] s2 = Inr s3 \<and>
         currentJobIndex s3 = (currentJobIndex init + 1) mod length (filteredJobs init) \<and>
         animation s3 = None"
    by blast
  from s2(6) w(2) have f: "\<exists>s4. run [Elapse 300] s2 = Inr s4 \<and>
         currentJobIndex s4 = (currentJobIndex init + 2) mod length (filteredJobs init) \<and>
         animation s4 = None \<and> timers s4 = []"
    by blast
  from h s2(1,2,3,4) m f show ?thesis by auto
qed




text \<open>
  C5. A listing passes the type filter if and only if its employment kind, compared
  case-insensitively, is the label of an active criterion; a listing is in the
  filtered sequence if and only if it is a listing that passes the three filters; and
  when no criterion is active the filtered sequence is empty, whatever the listings,
  the search term and the profile.
\<close>

theorem type_filter:
  "(matchesType cs job \<longleftrightarrow>
      (\<exists>c \<in> set cs. active c \<and> equal_ignoring_case (label c) (job_type job))) \<and>
   (job \<in> set (filtered jobs cs term p) \<longleftrightarrow>
      job \<in> set jobs \<and> matchesType cs job \<and> matchesSearch term job \<and> matchesSalary p job) \<and>
   ((\<forall>c \<in> set cs. \<not> active c) \<longrightarrow> filtered jobs cs term p = [])"
proof -
  have a: "matchesType cs job \<longleftrightarrow>
      (\<exists>c \<in> set cs. active c \<and> equal_ignoring_case (label c) (job_type job))"
  proof -
    have "matchesType cs job \<longleftrightarrow>
        (\<exists>c \<in> set cs. active c \<and> toLowerCase (label c) = toLowerCase (job_type job))"
      by (force simp: matchesType_def activeCriteriaTypes_def)
    then show ?thesis by (simp only: toLowerCase_eq_iff)
  qed
  have b: "job \<in> set (filtered jobs cs term p) \<longleftrightarrow>
      job \<in> set jobs \<and> matchesType cs job \<and> matchesSearch term job \<and> matchesSalary p job"
    by (simp add: filtered_def)
  have c: "(\<forall>c \<in> set cs. \<not> active c) \<longrightarrow> filtered jobs cs term p = []"
    by (auto simp: filtered_def matchesType_def activeCriteriaTypes_def filter_empty_conv)
  from a b c show ?thesis by blast
qed

theorem type_filter_witness:
  "\<not> (\<exists>c \<in> set all_off. active c) \<and>
   filtered DUMMY_JOBS all_off [] INITIAL_PROFILE = [] \<and>
   matchesType INITIAL_CRITERIA shouting_intern \<and>
   (\<exists>c \<in> set INITIAL_CRITERIA. active c \<and> equal_ignoring_case (label c) (job_type shouting_intern)) \<and>
   \<not> matchesType (toggleCriteria ''internship'' INITIAL_CRITERIA) shouting_intern \<and>
   \<not> (\<exists>c \<in> set (toggleCriteria ''internship'' INITIAL_CRITERIA).
         active c \<and> equal_ignoring_case (label c) (job_type shouting_intern))"
proof -
  have off: "\<forall>c \<in> set all_off. \<not> active c"
    by (simp add: all_off_def)
  have m: "matchesType INITIAL_CRITERIA shouting_intern"
    by code_simp
  have n: "\<not> matchesType (toggleCriteria ''internship'' INITIAL_CRITERIA) shouting_intern"
    by code_simp
  from off m n type_filter [of all_off shouting_intern DUMMY_JOBS "[]" INITIAL_PROFILE]
    type_filter [of INITIAL_CRITERIA shouting_intern DUMMY_JOBS "[]" INITIAL_PROFILE]
    type_filter [of "toggleCriteria ''internship'' INITIAL_CRITERIA" shouting_intern DUMMY_JOBS "[]"
      INITIAL_PROFILE]
  show ?thesis by blast
qed

text \<open>
  C6, as stated: in every state with a non-empty filtered sequence, 300 units after a
  swipe to the right the cursor has advanced by one. It fails in the state
  \<open>mid_transition\<close>, reached from the initial state by a swipe and 100 units: the
  callback of the earlier swipe is still pending, and 300 units after the swipe to the
  right the index is 2, not \<open>(0 + 1) mod 4\<close>.
\<close>

theorem swipe_right_counterexample:
  "run [Swipe Left, Elapse 100] init = Inr mid_transition \<and>
   filteredJobs mid_transition \<noteq> [] \<and>
   map_sum id currentJobIndex (run [Swipe Right, Elapse 300] mid_transition) = Inr 2 \<and>
   map_sum id currentJobIndex (run [Swipe Right, Elapse 300] mid_transition) \<noteq>
     Inr ((currentJobIndex mid_transition + 1) mod length (filteredJobs mid_transition))"
  by (simp add: trace_defs mid_transition_def)

text \<open>
  C6, amended. Take a state with a non-empty filtered sequence, whose index points into
  it and in which no callback is pending, and a swipe to the right that runs the
  handler of the current render (a button, or the arrow key while the listener holds
  the values of the current render). The state that follows the call differs from the
  state before in three fields only: the marker is \<open>swipe_right\<close>, one callback is pending,
  due 300 units later, and the saved set is the set it was with the identifier of the
  current listing added, no identifier twice. As long as less than 300 units have
  passed, only the clock moves. Once 300 units have passed with no other event, the
  index is \<open>(index + 1) mod length\<close>, the marker is back to none, nothing is pending,
  and the saved set and the filtered sequence are as the swipe left them.
\<close>

theorem swipe_right_saves_then_advances:
  assumes ne: "filteredJobs st \<noteq> []"
    and idx: "currentJobIndex st < length (filteredJobs st)"
    and idle: "timers st = []"
    and cur: "current_handler g Right st"
  shows "\<exists>s1. step g st = Inr s1 \<and>
           s1 = st\<lparr>animation := Some swipe_right, savedJobs := savedJobs s1,
                   timers := [(now st + 300, filteredJobs st)]\<rparr> \<and>
           set (savedJobs s1) =
             insert (job_id (filteredJobs st ! currentJobIndex st)) (set (savedJobs st)) \<and>
           distinct (savedJobs s1) \<and>
           (\<forall>t < now st + 300. advance_to t s1 = s1\<lparr>now := max (now st) t\<rparr>) \<and>
           (\<forall>t \<ge> now st + 300.
              currentJobIndex (advance_to t s1) = (currentJobIndex st + 1) mod length (filteredJobs st) \<and>
              animation (advance_to t s1) = None \<and>
              savedJobs (advance_to t s1) = savedJobs s1 \<and>
              filteredJobs (advance_to t s1) = filteredJobs st \<and>
              timers (advance_to t s1) = [])"
proof -
  let ?x = "job_id (filteredJobs st ! currentJobIndex st)"
  let ?s1 = "st\<lparr>animation := Some swipe_right,
                 savedJobs := new_Set (savedJobs st @ [?x]),
                 timers := timers st @ [(now st + 300, filteredJobs st)]\<rparr>"
  have sw: "step g st = Inr ?s1"
    using handleSwipe_valid [OF idx, of Right] step_current_handler [OF cur] by simp
  have frame: "?s1 = st\<lparr>animation := Some swipe_right, savedJobs := savedJobs ?s1,
                   timers := [(now st + 300, filteredJobs st)]\<rparr>"
    using idle by simp
  have mem: "set (savedJobs ?s1) = insert ?x (set (savedJobs st))"
    by (simp add: set_new_Set)
  have dist: "distinct (savedJobs ?s1)"
    by (simp add: new_Set_distinct)
  have before: "\<forall>t < now st + 300. advance_to t ?s1 = ?s1\<lparr>now := max (now st) t\<rparr>"
    using idle by (simp add: advance_to_def)
  have after: "\<forall>t \<ge> now st + 300.
      currentJobIndex (advance_to t ?s1) = (currentJobIndex st + 1) mod length (filteredJobs st) \<and>
      animation (advance_to t ?s1) = None \<and>
      savedJobs (advance_to t ?s1) = savedJobs ?s1 \<and>
      filteredJobs (advance_to t ?s1) = filteredJobs st \<and>
      timers (advance_to t ?s1) = []"
    using idle by (simp add: advance_to_def)
  show ?thesis
    apply (rule exI [of _ ?s1])
    apply (intro conjI)
         apply (rule sw)
        apply (rule frame)
       apply (rule mem)
      apply (rule dist)
     apply (rule before)
    apply (rule after)
    done
qed

theorem swipe_right_saves_then_advances_witness:
  "filteredJobs init \<noteq> [] \<and> currentJobIndex init < length (filteredJobs init) \<and> timers init = [] \<and>
   current_handler (KeyDown Right) Right init \<and>
   (\<exists>s1. step (KeyDown Right) init = Inr s1 \<and>
           set (savedJobs s1) =
             insert (job_id (filteredJobs init ! currentJobIndex init)) (set (savedJobs init)) \<and>
           currentJobIndex s1 = currentJobIndex init \<and>
           animation s1 = Some swipe_right \<and>
           advance_to 299 s1 = s1\<lparr>now := 299\<rparr> \<and>
           currentJobIndex (advance_to 300 s1) = 1 \<and>
           animation (advance_to 300 s1) = None \<and>
           savedJobs (advance_to 300 s1) = savedJobs s1 \<and>
           timers (advance_to 300 s1) = [])"
proof -
  have h: "filteredJobs init \<noteq> []" "currentJobIndex init < length (filteredJobs init)"
    "timers init = []" "current_handler (KeyDown Right) Right init"
    by (simp_all add: init_eq DUMMY_JOBS_def current_handler_def)
  have v: "now init = 0" "(currentJobIndex init + 1) mod length (filteredJobs init) = 1"
    by (simp_all add: init_eq DUMMY_JOBS_def)
  from swipe_right_saves_then_advances [OF h] obtain s1 where
    s1: "step (KeyDown Right) init = Inr s1"
      "s1 = init\<lparr>animation := Some swipe_right, savedJobs := savedJobs s1,
                   timers := [(now init + 300, filteredJobs init)]\<rparr>"
      "set (savedJobs s1) =
         insert (job_id (filteredJobs init ! currentJobIndex init)) (set (savedJobs init))"
      "\<forall>t < now init + 300. advance_to t s1 = s1\<lparr>now := max (now init) t\<rparr>"
      "\<forall>t \<ge> now init + 300.
         currentJobIndex (advance_to t s1) =
           (currentJobIndex init + 1) mod length (filteredJobs init) \<and>
         animation (advance_to t s1) = None \<and>
         savedJobs (advance_to t s1) = savedJobs s1 \<and>
         filteredJobs (advance_to t s1) = filteredJobs init \<and>
         timers (advance_to t s1) = []"
    by blast
  have i: "currentJobIndex s1 = currentJobIndex init" "animation s1 = Some swipe_right"
    by (subst s1(2), simp)+
  have b: "advance_to 299 s1 = s1\<lparr>now := 299\<rparr>"
    using s1(4) v(1) by simp
  have a: "currentJobIndex (advance_to 300 s1) = 1 \<and>
           animation (advance_to 300 s1) = None \<and>
           savedJobs (advance_to 300 s1) = savedJobs s1 \<and>
           timers (advance_to 300 s1) = []"
    using s1(5) v by simp
  from h s1(1,3) i b a show ?thesis by blast
qed

text \<open>
  C7. On an empty deck the two buttons are not on screen, and a swipe can only come
  from an arrow key, through the handler that the listener holds. From the initial
  state, ticking "Remote jobs only" empties the filtered sequence and leaves the index
  at 0, so the listener stays the one of the first render, with its four listings.
  \<open>currentJob\<close> is then the no-item value. But the arrow key to the right passes the
  guard: it saves the identifier 1, sets the marker and schedules a callback, which
  300 units later sets the index to 1.
\<close>

theorem keydown_on_empty_deck_swipes:
  "run [SetPreferences remote_prefs] init =
     Inr (init\<lparr>profile := INITIAL_PROFILE\<lparr>jobPreferences := remote_prefs\<rparr>,
               filteredJobs := []\<rparr>) \<and>
   currentJob (init\<lparr>profile := INITIAL_PROFILE\<lparr>jobPreferences := remote_prefs\<rparr>,
               filteredJobs := []\<rparr>) = None \<and>
   run [SetPreferences remote_prefs, KeyDown Right] init =
     Inr (init\<lparr>profile := INITIAL_PROFILE\<lparr>jobPreferences := remote_prefs\<rparr>,
               filteredJobs := [], animation := Some swipe_right, savedJobs := [1],
               timers := [(300, DUMMY_JOBS)]\<rparr>) \<and>
   run [SetPreferences remote_prefs, KeyDown Right, Elapse 300] init =
     Inr (init\<lparr>profile := INITIAL_PROFILE\<lparr>jobPreferences := remote_prefs\<rparr>,
               filteredJobs := [], savedJobs := [1], currentJobIndex := 1, now := 300,
               listener := ([], 1)\<rparr>)"
  by (simp add: trace_defs currentJob_def)

text \<open>
  C8. Saving is idempotent. In a state whose saved set is a set and whose index points
  at a listing: if the identifier of that listing is already saved, \<open>handleSwipe Right\<close>
  leaves the saved set as it is; and after any number \<open>n > 0\<close> of accept-swipes on that
  listing the saved set holds its identifier exactly once, beside what it held before.
\<close>

theorem save_idempotent:
  assumes dist: "distinct (savedJobs st)"
    and cur: "currentJob st = Some job"
  shows "(job_id job \<in> set (savedJobs st) \<longrightarrow>
            (\<exists>s1. handleSwipe Right st = Inr s1 \<and> savedJobs s1 = savedJobs st)) \<and>
         (\<forall>n > 0. \<exists>sn. run (replicate n (Swipe Right)) st = Inr sn \<and>
            count_list (savedJobs sn) (job_id job) = 1 \<and>
            set (savedJobs sn) = insert (job_id job) (set (savedJobs st)) \<and>
            length (savedJobs sn) =
              (if job_id job \<in> set (savedJobs st) then length (savedJobs st)
               else length (savedJobs st) + 1))"
proof -
  have one: "job_id job \<in> set (savedJobs st) \<longrightarrow>
      (\<exists>s1. handleSwipe Right st = Inr s1 \<and> savedJobs s1 = savedJobs st)"
    using swipe_Right_saved [OF cur] by (auto simp: new_Set_id [OF dist] set_add_member)
  have many: "\<exists>sn. run (replicate n (Swipe Right)) st = Inr sn \<and>
            count_list (savedJobs sn) (job_id job) = 1 \<and>
            set (savedJobs sn) = insert (job_id job) (set (savedJobs st)) \<and>
            length (savedJobs sn) =
              (if job_id job \<in> set (savedJobs st) then length (savedJobs st)
               else length (savedJobs st) + 1)"
    if "0 < n" for n
  proof -
    from swipes_Right_saved [OF cur that] obtain sn where
      sn: "run (replicate n (Swipe Right)) st = Inr sn"
        "savedJobs sn = set_add (new_Set (savedJobs st)) (job_id job)"
      by blast
    have eq: "savedJobs sn = set_add (savedJobs st) (job_id job)"
      by (simp add: sn(2) new_Set_id [OF dist])
    have "distinct (savedJobs sn)"
      using dist by (simp add: eq set_add_def)
    moreover have "job_id job \<in> set (savedJobs sn)"
      by (simp add: eq set_add_def)
    ultimately have "count_list (savedJobs sn) (job_id job) = 1"
      by (rule count_list_distinct)
    moreover have "set (savedJobs sn) = insert (job_id job) (set (savedJobs st))"
      by (auto simp: eq set_add_def)
    moreover have "length (savedJobs sn) =
        (if job_id job \<in> set (savedJobs st) then length (savedJobs st)
         else length (savedJobs st) + 1)"
      by (simp add: eq set_add_def)
    ultimately show ?thesis using sn(1) by blast
  qed
  from one many show ?thesis by blast
qed

theorem save_idempotent_witness:
  "distinct (savedJobs saved_first) \<and>
   currentJob saved_first = Some (DUMMY_JOBS ! 0) \<and>
   job_id (DUMMY_JOBS ! 0) \<in> set (savedJobs saved_first) \<and>
   (\<exists>s1. handleSwipe Right saved_first = Inr s1 \<and> savedJobs s1 = savedJobs saved_first) \<and>
   (\<exists>sn. run (replicate 2 (Swipe Right)) saved_first = Inr sn \<and>
      count_list (savedJobs sn) (job_id (DUMMY_JOBS ! 0)) = 1 \<and>
      length (savedJobs sn) = length (savedJobs saved_first))"
proof -
  have d: "distinct (savedJobs saved_first)"
    by (simp add: saved_first_def)
  have c: "currentJob saved_first = Some (DUMMY_JOBS ! 0)"
    by (simp add: saved_first_def init_eq currentJob_def DUMMY_JOBS_def)
  have m: "job_id (DUMMY_JOBS ! 0) \<in> set (savedJobs saved_first)"
    by (simp add: saved_first_def DUMMY_JOBS_def)
  have n: "(0::nat) < 2"
    by simp
  from save_idempotent [OF d c] d c m n show ?thesis
    by (metis (no_types, lifting))
qed

text \<open>
  C9, as stated: with a filtered sequence of length \<open>N\<close>, a swipe that is left to settle
  sets the index to \<open>(index + 1) mod N\<close>, and \<open>N\<close> of them bring the cursor back. It
  fails in the state \<open>mid_transition\<close>, reached from the initial state by a swipe and
  100 units, where the callback of the earlier swipe is still pending: one settled
  swipe moves the index from 0 to 2, and four of them leave it at 1.
\<close>

theorem deck_is_circular_counterexample:
  "run [Swipe Left, Elapse 100] init = Inr mid_transition \<and>
   length (filteredJobs mid_transition) = 4 \<and>
   currentJobIndex mid_transition = 0 \<and>
   map_sum id currentJobIndex (run [Swipe Left, Elapse 300] mid_transition) = Inr 2 \<and>
   map_sum id currentJobIndex
     (run (settle_each [Swipe Left, Swipe Left, Swipe Left, Swipe Left]) mid_transition) = Inr 1 \<and>
   map_sum id currentJobIndex
     (run (settle_each [Swipe Left, Swipe Left, Swipe Left, Swipe Left]) mid_transition) \<noteq>
     Inr (currentJobIndex mid_transition)"
  by (simp add: trace_defs mid_transition_def)

text \<open>
  C9, amended. The deck is circular. Take a state whose index points into the filtered
  sequence, of length \<open>N\<close>, and in which no callback is pending, and swipes that each run
  the handler of the current render (a button, or an arrow key while the listener
  holds the values of the current render) and are each left to settle for 300 units,
  with no other event. One such swipe, in either direction, sets the index to
  \<open>(index + 1) mod N\<close> and leaves the sequence as it is; and \<open>N\<close> of them, in any
  directions, bring the index back to where it was.
\<close>

theorem deck_is_circular:
  assumes idx: "currentJobIndex st < length (filteredJobs st)" and idle: "timers st = []"
    and cur: "current_handler g d st"
    and all: "\<forall>g \<in> set gs. \<exists>d. current_handler g d st"
  shows "(\<exists>s1. run [g, Elapse 300] st = Inr s1 \<and>
            currentJobIndex s1 = (currentJobIndex st + 1) mod length (filteredJobs st) \<and>
            filteredJobs s1 = filteredJobs st) \<and>
         (length gs = length (filteredJobs st) \<longrightarrow>
            (\<exists>s'. run (settle_each gs) st = Inr s' \<and> currentJobIndex s' = currentJobIndex st \<and>
               filteredJobs s' = filteredJobs st))"
proof -
  have one: "\<exists>s1. run [g, Elapse 300] st = Inr s1 \<and>
            currentJobIndex s1 = (currentJobIndex st + 1) mod length (filteredJobs st) \<and>
            filteredJobs s1 = filteredJobs st"
    using swipe_settle_step [OF idx idle cur] by blast
  have many: "\<exists>s'. run (settle_each gs) st = Inr s' \<and> currentJobIndex s' = currentJobIndex st \<and>
               filteredJobs s' = filteredJobs st"
    if "length gs = length (filteredJobs st)"
    using settle_each_index [OF idx idle all] that idx by auto
  from one many show ?thesis by blast
qed

theorem deck_is_circular_witness:
  "currentJobIndex init < length (filteredJobs init) \<and> timers init = [] \<and>
   current_handler (KeyDown Left) Left init \<and>
   \<not> (\<exists>g \<in> set [Swipe Right, KeyDown Left, Swipe Left, KeyDown Right].
         \<not> (\<exists>d. current_handler g d init)) \<and>
   length [Swipe Right, KeyDown Left, Swipe Left, KeyDown Right] = length (filteredJobs init) \<and>
   (\<exists>s1. run [KeyDown Left, Elapse 300] init = Inr s1 \<and> currentJobIndex s1 = 1) \<and>
   (\<exists>s'. run (settle_each [Swipe Right, KeyDown Left, Swipe Left, KeyDown Right]) init = Inr s' \<and>
      currentJobIndex s' = currentJobIndex init)"
proof -
  have h: "currentJobIndex init < length (filteredJobs init)" "timers init = []"
    "current_handler (KeyDown Left) Left init"
    by (simp_all add: init_eq DUMMY_JOBS_def current_handler_def)
  have f: "listener init = (filteredJobs init, currentJobIndex init)"
    by (simp add: init_eq)
  have a: "\<forall>g \<in> set [Swipe Right, KeyDown Left, Swipe Left, KeyDown Right].
      \<exists>d. current_handler g d init"
    using f by (simp add: current_handler_def)
  have l: "length [Swipe Right, KeyDown Left, Swipe Left, KeyDown Right] = length (filteredJobs init)"
    by (simp add: init_eq DUMMY_JOBS_def)
  have v: "(currentJobIndex init + 1) mod length (filteredJobs init) = 1"
    by (simp add: init_eq DUMMY_JOBS_def)
  from deck_is_circular [OF h a] h a l v
  show ?thesis by auto
qed

text \<open>
  C10. \<open>handleRemoveSaved\<close> changes the saved set only: for every state and every
  identifier, in the set or not, the filtered sequence, the index, the transition
  marker, the criteria, the search term, the profile with its preference flags, the
  pending callbacks, the clock and the listener are what they were.
\<close>

theorem handleRemoveSaved_frame:
  "filteredJobs (handleRemoveSaved jobId st) = filteredJobs st \<and>
   currentJobIndex (handleRemoveSaved jobId st) = currentJobIndex st \<and>
   animation (handleRemoveSaved jobId st) = animation st \<and>
   criteria (handleRemoveSaved jobId st) = criteria st \<and>
   searchTerm (handleRemoveSaved jobId st) = searchTerm st \<and>
   profile (handleRemoveSaved jobId st) = profile st \<and>
   timers (handleRemoveSaved jobId st) = timers st \<and>
   now (handleRemoveSaved jobId st) = now st \<and>
   listener (handleRemoveSaved jobId st) = listener st \<and>
   handleRemoveSaved jobId st = st\<lparr>savedJobs := savedJobs (handleRemoveSaved jobId st)\<rparr>"
  by (simp add: handleRemoveSaved_def)

end
